theory Spec2Isabelle
  imports Main "HOL-Library.AList"
begin

section \<open>Common command-line arguments of spack (\<^verbatim>\<open>spack/cmd/common/arguments.py\<close>)\<close>

text \<open>
  The module keeps a registry of argument builders, attaches them to an argparse parser
  on demand, and defines three argparse actions. The parser, the configuration system,
  the spec parser, the installed-package database, the active environment, the CPU count
  and the dependency-type vocabulary live outside the module: they are taken as
  parameters. The spec parser, the dependency-type canonicalizer and argparse's
  \<^verbatim>\<open>add_argument\<close> can raise, and the module catches nothing: their exceptions are
  results of the model. The other collaborators return.
\<close>

subsection \<open>Exceptions\<close>

text \<open>
  \<open>KeyError\<close> and \<open>ValueError\<close> are raised by the module itself,
  \<open>AttributeError\<close> by reading an attribute that was never assigned, and
  \<open>Propagated e\<close> is an exception \<open>e\<close> of a collaborator that the module lets through.
\<close>

datatype 'e error = KeyError string | ValueError string | AttributeError string | Propagated 'e

subsection \<open>Python string operations\<close>

text \<open>
  A string is a list of characters with code points below 256. \<open>isspace\<close> is Python 3's
  \<^verbatim>\<open>str.isspace\<close> on these code points; \<open>strip\<close> is \<^verbatim>\<open>str.strip()\<close>,
  \<open>split_str sep\<close> is \<^verbatim>\<open>str.split(sep)\<close> for a one-character separator,
  \<open>join\<close> is \<^verbatim>\<open>sep.join(xs)\<close> and \<open>str_int\<close> is \<^verbatim>\<open>str\<close> on an integer.
\<close>

definition isspace :: "char \<Rightarrow> bool" where
  "isspace c = (of_char c \<in> {9, 10, 11, 12, 13, 28, 29, 30, 31, 32, 133, 160 :: nat})"

definition strip :: "string \<Rightarrow> string" where
  "strip s = rev (dropWhile isspace (rev (dropWhile isspace s)))"

fun split_str :: "char \<Rightarrow> string \<Rightarrow> string list" where
  "split_str sep [] = [[]]"
| "split_str sep (c # cs) =
     (if c = sep then [] # split_str sep cs
      else (case split_str sep cs of
              w # ws \<Rightarrow> (c # w) # ws
            | [] \<Rightarrow> [[c]]))"

fun join :: "string \<Rightarrow> string list \<Rightarrow> string" where
  "join sep [] = []"
| "join sep [x] = x"
| "join sep (x # y # ys) = x @ sep @ join sep (y # ys)"

fun str_nat :: "nat \<Rightarrow> string" where
  "str_nat n =
     (if n < 10 then [''0123456789'' ! n]
      else str_nat (n div 10) @ [''0123456789'' ! (n mod 10)])"

declare str_nat.simps [simp del]

definition str_int :: "int \<Rightarrow> string" where
  "str_int i = (if i < 0 then CHR ''-'' # str_nat (nat (- i)) else str_nat (nat i))"

subsection \<open>Argument bunches and the registry\<close>

text \<open>
  \<^verbatim>\<open>Args(*flags, **kwargs)\<close> bundles the positional and the keyword arguments of one
  \<^verbatim>\<open>parser.add_argument\<close> call. Keyword values are strings, booleans,
  \<^verbatim>\<open>argparse.REMAINDER\<close>, an action class, the type \<^verbatim>\<open>int\<close>, a tuple of strings, or a
  value read from the configuration.
\<close>

datatype action_class = ConstraintAction | SetParallelJobs | DeptypeAction

datatype 'c argval =
    Str string
  | Bool bool
  | REMAINDER
  | Action action_class
  | IntType
  | Tuple "string list"
  | Config 'c

datatype 'c Args = Args "string list" "(string \<times> 'c argval) list"





subsection \<open>The parsed namespace\<close>

text \<open>
  The namespace is an object with dynamically named attributes. The module stores in it a
  list of tokens, the bound method \<^verbatim>\<open>self._specs\<close>, an integer, or a tuple of
  dependency types.
\<close>

datatype nsval = Tokens "string list" | SpecsMethod | IntVal int | DeptypeVal "string list"

type_synonym namespace = "string \<rightharpoonup> nsval"

subsection \<open>ConstraintAction\<close>

text \<open>
  The action object carries the attribute \<^verbatim>\<open>values\<close>, unset until the action fires.
\<close>

record constraint_action =
  "values" :: "string list option"

text \<open>
  Keyword filters of a database query: the \<^verbatim>\<open>hashes\<close> filter is a set of hashes, any
  other filter an uninterpreted value.
\<close>

datatype ('h, 'v) filter_val = HashSet "'h set" | Other 'v

text \<open>
  The collaborators of the deferred query: \<^verbatim>\<open>spack.cmd.parse_specs\<close> (raises on
  malformed input), \<^verbatim>\<open>ev._active_environment\<close> and its \<^verbatim>\<open>all_hashes()\<close>,
  \<^verbatim>\<open>spack.store.db.query\<close> with an optional query spec and keyword filters,
  \<^verbatim>\<open>dag_hash()\<close> of a returned spec, and the key by which returned specs compare.
\<close>

record ('q, 'env, 'h, 'v, 's, 'k, 'e) collaborators =
  parse_specs :: "string list \<Rightarrow> 'e + 'q list"
  active_environment :: "'env option"
  all_hashes :: "'env \<Rightarrow> 'h list"
  db_query :: "'q option \<Rightarrow> (string \<rightharpoonup> ('h, 'v) filter_val) \<Rightarrow> 's list"
  dag_hash :: "'s \<Rightarrow> 'h"
  cmp_key :: "'s \<Rightarrow> 'k::linorder"

text \<open>\<^verbatim>\<open>ConstraintAction.__call__(self, parser, namespace, values, option_string)\<close>.\<close>

definition ConstraintAction_call ::
  "constraint_action \<Rightarrow> namespace \<Rightarrow> string list \<Rightarrow> constraint_action \<times> namespace"
where
  "ConstraintAction_call self namespace vals =
     (self\<lparr>values := Some vals\<rparr>,
      namespace(''constraint'' \<mapsto> Tokens vals, ''specs'' \<mapsto> SpecsMethod))"

text \<open>
  \<^verbatim>\<open>ConstraintAction._specs(self, **kwargs)\<close>. The dictionary \<^verbatim>\<open>specs\<close> is an
  association list in insertion order; assigning to a key that is present replaces its
  value in place (\<open>AList.update\<close>). \<^verbatim>\<open>sorted\<close> is a stable sort.
\<close>

definition ConstraintAction_specs ::
  "('q, 'env, 'h, 'v, 's, 'k::linorder, 'e) collaborators \<Rightarrow> constraint_action \<Rightarrow>
   (string \<rightharpoonup> ('h, 'v) filter_val) \<Rightarrow> 'e error + 's list"
where
  "ConstraintAction_specs ext self kwargs =
     (case values self of
        None \<Rightarrow> Inl (AttributeError ''values'')
      | Some vals \<Rightarrow>
          (case parse_specs ext vals of
             Inl e \<Rightarrow> Inl (Propagated e)
           | Inr qspecs \<Rightarrow>
               (let kwargs =
                      (case active_environment ext of
                         Some env \<Rightarrow> kwargs(''hashes'' \<mapsto> HashSet (set (all_hashes ext env)))
                       | None \<Rightarrow> kwargs)
                in if qspecs = [] then Inr (db_query ext None kwargs)
                   else
                     Inr (sort_key (cmp_key ext)
                            (map snd
                               (fold (\<lambda>spec specs.
                                        fold (\<lambda>s specs. AList.update (dag_hash ext s) s specs)
                                          (db_query ext (Some spec) kwargs) specs)
                                  qspecs []))))))"

subsection \<open>SetParallelJobs\<close>

text \<open>
  \<^verbatim>\<open>multiprocessing.cpu_count()\<close>, \<^verbatim>\<open>spack.config.get(path, default)\<close> and
  \<^verbatim>\<open>spack.config.set(path, value, scope)\<close>, over a configuration state \<open>'cfg\<close>.
\<close>

record 'cfg system =
  cpu_count :: int
  config_get :: "'cfg \<Rightarrow> string \<Rightarrow> int \<Rightarrow> int"
  config_set :: "'cfg \<Rightarrow> string \<Rightarrow> int \<Rightarrow> string \<Rightarrow> 'cfg"

text \<open>
  \<^verbatim>\<open>SetParallelJobs.__call__(self, parser, namespace, jobs, option_string)\<close>: the
  exception raised, if any, with the configuration and the namespace as the call leaves
  them.
\<close>

definition SetParallelJobs_call ::
  "'cfg system \<Rightarrow> 'cfg \<Rightarrow> namespace \<Rightarrow> int \<Rightarrow> string \<Rightarrow> 'e error option \<times> 'cfg \<times> namespace"
where
  \<open>SetParallelJobs_call sys config namespace jobs option_string =
     (if jobs < 1 then
        (Some (ValueError (''invalid value for argument "'' @ option_string @
                 ''" [expected a positive integer, got "'' @ str_int jobs @ ''"]'')),
         config, namespace)
      else
        (let jobs = min jobs (cpu_count sys);
             config = config_set sys config ''config:build_jobs'' jobs ''command_line''
         in (None, config, namespace(''jobs'' \<mapsto> IntVal jobs))))\<close>

text \<open>The property \<^verbatim>\<open>default\<close>: its getter, and its setter, which does nothing.\<close>

definition SetParallelJobs_default :: "'cfg system \<Rightarrow> 'cfg \<Rightarrow> 'a \<Rightarrow> int" where
  "SetParallelJobs_default sys config self =
     min (config_get sys config ''config:build_jobs'' 16) (cpu_count sys)"

definition SetParallelJobs_default_setter :: "'a \<Rightarrow> int \<Rightarrow> 'a" where
  "SetParallelJobs_default_setter self v = self"

subsection \<open>DeptypeAction\<close>

text \<open>
  \<^verbatim>\<open>dep.canonical_deptype\<close> receives either a string or a tuple of strings and returns a
  tuple of dependency types or raises; \<^verbatim>\<open>dep.all_deptypes\<close> is the tuple of all
  dependency types.
\<close>

datatype deptype_arg = StrArg string | TupleArg "string list"

record 'e dep =
  all_deptypes :: "string list"
  canonical_deptype :: "deptype_arg \<Rightarrow> 'e + string list"

text \<open>
  \<^verbatim>\<open>DeptypeAction.__call__(self, parser, namespace, values, option_string)\<close>, with
  \<open>dest\<close> the attribute \<^verbatim>\<open>self.dest\<close>. The value is a string or \<^verbatim>\<open>None\<close>; both
  \<^verbatim>\<open>None\<close> and the empty string are false in \<^verbatim>\<open>if values:\<close>.
\<close>

definition DeptypeAction_call ::
  "'e dep \<Rightarrow> string \<Rightarrow> namespace \<Rightarrow> string option \<Rightarrow> 'e error option \<times> namespace"
where
  "DeptypeAction_call dep dest namespace vals =
     (case vals of
        None \<Rightarrow> (None, namespace(dest \<mapsto> DeptypeVal (all_deptypes dep)))
      | Some v \<Rightarrow>
          if v = [] then (None, namespace(dest \<mapsto> DeptypeVal (all_deptypes dep)))
          else
            (let deptype = map strip (split_str CHR '','' v);
                 deptype = (if deptype = [''all''] then StrArg ''all'' else TupleArg deptype)
             in case canonical_deptype dep deptype of
                  Inl e \<Rightarrow> (Some (Propagated e), namespace)
                | Inr deptype \<Rightarrow> (None, namespace(dest \<mapsto> DeptypeVal deptype))))"

subsection \<open>The registered builders\<close>

text \<open>
  The state the builders read: \<^verbatim>\<open>spack.config.get('config:dirty')\<close> and the module
  \<^verbatim>\<open>dep\<close>.
\<close>

record ('c, 'e) globals =
  config_dirty :: "'c"
  dep_module :: "'e dep"


definition package :: "'c Args" where
  "package = Args [''package''] [(''help'', Str ''package name'')]"


definition spec :: "'c Args" where
  "spec = Args [''spec''] [(''nargs'', REMAINDER), (''help'', Str ''package spec'')]"

definition specs :: "'c Args" where
  "specs =
     Args [''specs''] [(''nargs'', REMAINDER), (''help'', Str ''one or more package specs'')]"







definition deptype :: "('c, 'e) globals \<Rightarrow> 'c Args" where
  "deptype g =
     Args [''--deptype'']
       [(''action'', Action DeptypeAction),
        (''default'', Tuple (all_deptypes (dep_module g))),
        (''help'', Str (''comma-separated list of deptypes to traverse\<newline>default='' @
                        join '','' (all_deptypes (dep_module g))))]"





definition jobs :: "'c Args" where
  "jobs =
     Args [''-j'', ''--jobs'']
       [(''action'', Action SetParallelJobs), (''type'', IntType), (''dest'', Str ''jobs''),
        (''help'', Str ''explicitly set number of parallel jobs'')]"





subsection \<open>Invariant of the dictionary of matches\<close>

text \<open>
  A dictionary from hashes to specs is \<open>keyed\<close> by the hash function \<open>h\<close> when no key
  occurs twice and every entry is stored under the hash of its value.
\<close>

definition keyed :: "('s \<Rightarrow> 'h) \<Rightarrow> ('h \<times> 's) list \<Rightarrow> bool" where
  "keyed h d \<longleftrightarrow> distinct (map fst d) \<and> (\<forall>(k, v) \<in> set d. k = h v)"

subsection \<open>Example collaborators\<close>





definition example_db ::
  "nat list option \<Rightarrow> (nat, nat list, nat, unit, nat \<times> nat, nat, string) collaborators"
where
  "example_db env =
     \<lparr>parse_specs = (\<lambda>tokens. if [] \<in> set tokens then Inl ''SpecParseError'' else Inr (map length tokens)),
      active_environment = env,
      all_hashes = (\<lambda>e. e),
      db_query = (\<lambda>q kw.
        filter (\<lambda>p. (case q of None \<Rightarrow> True | Some n \<Rightarrow> fst p \<le> n) \<and>
                     (case kw ''hashes'' of Some (HashSet H) \<Rightarrow> snd p \<in> H | _ \<Rightarrow> True))
          [(3, 30), (1, 10), (2, 20)]),
      dag_hash = snd,
      cmp_key = fst\<rparr>"

definition echo_db ::
  "(unit, unit, nat, unit, unit option \<times> (string \<rightharpoonup> (nat, unit) filter_val), nat, unit) collaborators"
where
  "echo_db =
     \<lparr>parse_specs = (\<lambda>tokens. Inr (map (\<lambda>t. ()) tokens)),
      active_environment = Some (),
      all_hashes = (\<lambda>e. [2]),
      db_query = (\<lambda>q kw. [(q, kw)]),
      dag_hash = (\<lambda>s. 0),
      cmp_key = (\<lambda>s. 0)\<rparr>"

definition sys8 :: "(string \<times> string \<times> int) list system" where
  "sys8 =
     \<lparr>cpu_count = 8,
      config_get = (\<lambda>cfg path default.
        case find (\<lambda>(scope, p, v). p = path) cfg of
          Some (scope, p, v) \<Rightarrow> v
        | None \<Rightarrow> default),
      config_set = (\<lambda>cfg path v scope. (scope, path, v) # cfg)\<rparr>"

definition dep_vocabulary :: "string dep" where
  "dep_vocabulary =
     \<lparr>all_deptypes = [''build'', ''link'', ''run'', ''test''],
      canonical_deptype = (\<lambda>a.
        case a of
          StrArg s \<Rightarrow>
            if s = ''all'' then Inr [''build'', ''link'', ''run'', ''test'']
            else if s \<in> set [''build'', ''link'', ''run'', ''test''] then Inr [s]
            else Inl s
        | TupleArg ts \<Rightarrow>
            (case filter (\<lambda>t. t \<notin> set [''build'', ''link'', ''run'', ''test'']) ts of
               [] \<Rightarrow> Inr (filter (\<lambda>d. d \<in> set ts) [''build'', ''link'', ''run'', ''test''])
             | b # bs \<Rightarrow> Inl b))\<rparr>"

section \<open>Properties\<close>

subsection \<open>Attaching arguments\<close>















subsection \<open>The deferred query of ConstraintAction\<close>

text \<open>
  The nested loops visit the matches of all queries in order. The dictionary they build
  is \<open>keyed\<close>: its keys are distinct and every key is the hash of its value.
\<close>

lemma fold_update_concat:
  "fold (\<lambda>q d. fold upd (f q) d) qs d = fold upd (concat (map f qs)) d"
  by (induction qs arbitrary: d) simp_all

lemma set_update_subset: "set (AList.update k v al) \<subseteq> insert (k, v) (set al)"
  by (induction al) auto

lemma keyed_update: "keyed h d \<Longrightarrow> keyed h (AList.update (h s) s d)"
  unfolding keyed_def using set_update_subset [of "h s" s d]
  by (auto simp: distinct_update)

lemma keyed_fold: "keyed h d \<Longrightarrow> keyed h (fold (\<lambda>s d. AList.update (h s) s d) xs d)"
  by (induction xs arbitrary: d) (simp_all add: keyed_update)

lemma keys_fold:
  "fst ` set (fold (\<lambda>s d. AList.update (h s) s d) xs d) = fst ` set d \<union> h ` set xs"
  by (induction xs arbitrary: d) (auto simp: dom_update)

lemma vals_fold:
  "snd ` set (fold (\<lambda>s d. AList.update (h s) s d) xs d) \<subseteq> snd ` set d \<union> set xs"
proof (induction xs arbitrary: d)
  case Nil
  then show ?case by simp
next
  case (Cons x xs)
  have "snd ` set (AList.update (h x) x d) \<subseteq> insert x (snd ` set d)"
    using set_update_subset [of "h x" x d] by force
  with Cons [of "AList.update (h x) x d"] show ?case by auto
qed

lemma keyed_map_fst: "keyed h d \<Longrightarrow> map h (map snd d) = map fst d"
  by (induction d) (auto simp: keyed_def)

lemma once_in_distinct:
  "distinct (map h r) \<Longrightarrow> k \<in> h ` set r \<Longrightarrow> length (filter (\<lambda>x. h x = k) r) = 1"
proof (induction r)
  case Nil
  then show ?case by simp
next
  case (Cons a r)
  show ?case
  proof (cases "h a = k")
    case True
    from Cons.prems(1) have "h a \<notin> h ` set r" by simp
    with True have "\<forall>x \<in> set r. h x \<noteq> k" by blast
    then have "filter (\<lambda>x. h x = k) r = []"
      by (simp add: filter_empty_conv)
    with True show ?thesis by simp
  next
    case False
    with Cons show ?thesis by auto
  qed
qed

lemma accumulate_sorted:
  fixes key :: "'s \<Rightarrow> 'k::linorder" and h :: "'s \<Rightarrow> 'h" and xs :: "'s list"
  defines "r \<equiv> sort_key key (map snd (fold (\<lambda>s d. AList.update (h s) s d) xs []))"
  shows "sorted (map key r)" and "distinct (map h r)" and "set r \<subseteq> set xs"
    and "h ` set r = h ` set xs"
    and "\<forall>s \<in> set xs. length (filter (\<lambda>x. h x = h s) r) = 1"
proof -
  let ?d = "fold (\<lambda>s d. AList.update (h s) s d) xs []"
  have k: "keyed h ?d" by (rule keyed_fold) (simp add: keyed_def)
  show "sorted (map key r)" by (simp add: r_def)
  have "distinct (map h (map snd ?d))"
    using k by (simp only: keyed_map_fst [OF k]) (simp add: keyed_def)
  then have "distinct (map snd ?d) \<and> inj_on h (set (map snd ?d))"
    by (simp only: distinct_map)
  then show dist: "distinct (map h r)"
    by (simp add: r_def distinct_map)
  show "set r \<subseteq> set xs" using vals_fold [of h xs "[]"] by (simp add: r_def)
  have "h ` set r = set (map h (map snd ?d))" by (simp add: r_def image_image)
  also have "\<dots> = fst ` set ?d" by (simp only: keyed_map_fst [OF k] set_map)
  also have "\<dots> = h ` set xs" by (simp add: keys_fold)
  finally show img: "h ` set r = h ` set xs" .
  show "\<forall>s \<in> set xs. length (filter (\<lambda>x. h x = h s) r) = 1"
    using once_in_distinct [OF dist] img by blast
qed

lemma specs_unfold:
  assumes "values self = Some vals" and "parse_specs ext vals = Inr qspecs"
  shows "ConstraintAction_specs ext self kwargs =
     Inr (let kw = (case active_environment ext of
                      Some env \<Rightarrow> kwargs(''hashes'' \<mapsto> HashSet (set (all_hashes ext env)))
                    | None \<Rightarrow> kwargs)
          in if qspecs = [] then db_query ext None kw
             else sort_key (cmp_key ext)
                    (map snd (fold (\<lambda>s d. AList.update (dag_hash ext s) s d)
                                (concat (map (\<lambda>q. db_query ext (Some q) kw) qspecs)) [])))"
  using assms by (simp add: ConstraintAction_specs_def Let_def fold_update_concat)


text \<open>
  C1, as the code has it. With an active environment, the set of the environment's hashes
  is stored under \<^verbatim>\<open>hashes\<close> in the keyword arguments and replaces a \<^verbatim>\<open>hashes\<close> filter
  of the caller: every database query of the call receives the caller's other filters and,
  under \<^verbatim>\<open>hashes\<close>, the environment's set; whatever the caller passed under \<^verbatim>\<open>hashes\<close>
  has no influence on the result.
\<close>

theorem environment_hashes_replace_callers:
  assumes "active_environment ext = Some env"
    and "values self = Some vals" and "parse_specs ext vals = Inr qspecs"
  shows "ConstraintAction_specs ext self kwargs =
     Inr (if qspecs = []
          then db_query ext None (kwargs(''hashes'' \<mapsto> HashSet (set (all_hashes ext env))))
          else sort_key (cmp_key ext)
                 (map snd (fold (\<lambda>s d. AList.update (dag_hash ext s) s d)
                    (concat (map (\<lambda>q. db_query ext (Some q)
                       (kwargs(''hashes'' \<mapsto> HashSet (set (all_hashes ext env))))) qspecs)) []))) \<and>
   ConstraintAction_specs ext self (kwargs(''hashes'' := h)) =
     ConstraintAction_specs ext self kwargs"
  using assms(1) by (simp add: specs_unfold [OF assms(2,3)])


theorem environment_hashes_replace_callers_witness:
  "active_environment (example_db (Some [10, 30])) = Some [10, 30] \<and>
   values \<lparr>values = Some [''abc'']\<rparr> = Some [''abc''] \<and>
   parse_specs (example_db (Some [10, 30])) [''abc''] = Inr [3] \<and>
   ConstraintAction_specs (example_db (Some [10, 30])) \<lparr>values = Some [''abc'']\<rparr>
       [''hashes'' \<mapsto> HashSet {20}] =
     Inr [(1, 10), (3, 30)] \<and>
   ConstraintAction_specs (example_db (Some [10, 30])) \<lparr>values = Some [''abc'']\<rparr>
       ([''hashes'' \<mapsto> HashSet {20}](''hashes'' := None)) =
     ConstraintAction_specs (example_db (Some [10, 30])) \<lparr>values = Some [''abc'']\<rparr>
       [''hashes'' \<mapsto> HashSet {20}]"
proof -
  have h1: "active_environment (example_db (Some [10, 30])) = Some [10, 30]"
    by (simp add: example_db_def)
  have h2: "values \<lparr>values = Some [''abc'']\<rparr> = Some [''abc'']"
    by simp
  have h3: "parse_specs (example_db (Some [10, 30])) [''abc''] = Inr [3]"
    by (simp add: example_db_def)
  show ?thesis
    using environment_hashes_replace_callers [OF h1 h2 h3, of "[''hashes'' \<mapsto> HashSet {20}]" None]
    by (simp add: example_db_def)
qed

text \<open>
  C1, as the claim states it, fails. The caller passes the hash filter \<open>{1}\<close>, the
  environment holds the hash \<open>2\<close>: the database receives \<open>{2}\<close> under \<^verbatim>\<open>hashes\<close> and the
  caller's set under no key.
\<close>

theorem caller_hashes_overridden:
  "ConstraintAction_specs echo_db \<lparr>values = Some []\<rparr> [''hashes'' \<mapsto> HashSet {1}] =
     Inr [(None, [''hashes'' \<mapsto> HashSet {2}])] \<and>
   HashSet {1} \<notin> ran [''hashes'' \<mapsto> (HashSet {2} :: (nat, unit) filter_val)]"
  by (simp add: ConstraintAction_specs_def echo_db_def)


text \<open>
  C4. When the tokens parse to a non-empty list of queries, the deferred callable returns
  a list that is sorted by the specs' order, holds no hash twice, consists of matches
  only, covers the hash of every match, and so holds exactly one entry for the hash of
  each spec that any of the queries matched.
\<close>

theorem specs_deduplicated_sorted:
  assumes "values self = Some vals" and "parse_specs ext vals = Inr qspecs" and "qspecs \<noteq> []"
  shows "\<exists>result. ConstraintAction_specs ext self kwargs = Inr result \<and>
     sorted (map (cmp_key ext) result) \<and>
     distinct (map (dag_hash ext) result) \<and>
     set result \<subseteq> (\<Union>q \<in> set qspecs. set (db_query ext (Some q)
        (case active_environment ext of
           Some env \<Rightarrow> kwargs(''hashes'' \<mapsto> HashSet (set (all_hashes ext env)))
         | None \<Rightarrow> kwargs))) \<and>
     dag_hash ext ` set result = dag_hash ext ` (\<Union>q \<in> set qspecs. set (db_query ext (Some q)
        (case active_environment ext of
           Some env \<Rightarrow> kwargs(''hashes'' \<mapsto> HashSet (set (all_hashes ext env)))
         | None \<Rightarrow> kwargs))) \<and>
     (\<forall>s \<in> (\<Union>q \<in> set qspecs. set (db_query ext (Some q)
        (case active_environment ext of
           Some env \<Rightarrow> kwargs(''hashes'' \<mapsto> HashSet (set (all_hashes ext env)))
         | None \<Rightarrow> kwargs))).
        length (filter (\<lambda>r. dag_hash ext r = dag_hash ext s) result) = 1)"
proof -
  define kw where "kw = (case active_environment ext of
           Some env \<Rightarrow> kwargs(''hashes'' \<mapsto> HashSet (set (all_hashes ext env)))
         | None \<Rightarrow> kwargs)"
  define xs where "xs = concat (map (\<lambda>q. db_query ext (Some q) kw) qspecs)"
  define r where "r = sort_key (cmp_key ext)
     (map snd (fold (\<lambda>s d. AList.update (dag_hash ext s) s d) xs []))"
  have res: "ConstraintAction_specs ext self kwargs = Inr r"
    using assms(3) by (simp add: specs_unfold [OF assms(1,2)] r_def xs_def kw_def)
  have M: "(\<Union>q \<in> set qspecs. set (db_query ext (Some q) kw)) = set xs"
    by (simp add: xs_def)
  have "sorted (map (cmp_key ext) r)" and "distinct (map (dag_hash ext) r)"
    and "set r \<subseteq> set xs" and "dag_hash ext ` set r = dag_hash ext ` set xs"
    and "\<forall>s \<in> set xs. length (filter (\<lambda>x. dag_hash ext x = dag_hash ext s) r) = 1"
    unfolding r_def by (rule accumulate_sorted)+
  with res show ?thesis
    unfolding kw_def [symmetric] M by blast
qed


theorem specs_deduplicated_sorted_witness:
  "values \<lparr>values = Some [''abc'', ''ab'']\<rparr> = Some [''abc'', ''ab''] \<and>
   parse_specs (example_db None) [''abc'', ''ab''] = Inr [3, 2] \<and>
   [3, 2] \<noteq> ([] :: nat list) \<and>
   db_query (example_db None) (Some 3) Map.empty = [(3, 30), (1, 10), (2, 20)] \<and>
   db_query (example_db None) (Some 2) Map.empty = [(1, 10), (2, 20)] \<and>
   ConstraintAction_specs (example_db None) \<lparr>values = Some [''abc'', ''ab'']\<rparr> Map.empty =
     Inr [(1, 10), (2, 20), (3, 30)] \<and>
   sorted (map (cmp_key (example_db None)) [(1, 10), (2, 20), (3, 30)]) \<and>
   distinct (map (dag_hash (example_db None)) [(1, 10), (2, 20), (3, 30)])"
proof -
  have h1: "values \<lparr>values = Some [''abc'', ''ab'']\<rparr> = Some [''abc'', ''ab'']"
    by simp
  have h2: "parse_specs (example_db None) [''abc'', ''ab''] = Inr [3, 2]"
    by (simp add: example_db_def)
  have h3: "[3, 2] \<noteq> ([] :: nat list)"
    by simp
  have q3: "db_query (example_db None) (Some 3) Map.empty = [(3, 30), (1, 10), (2, 20)]"
    by (simp add: example_db_def)
  have q2: "db_query (example_db None) (Some 2) Map.empty = [(1, 10), (2, 20)]"
    by (simp add: example_db_def)
  have r: "ConstraintAction_specs (example_db None) \<lparr>values = Some [''abc'', ''ab'']\<rparr> Map.empty =
     Inr [(1, 10), (2, 20), (3, 30)]"
    by (simp add: ConstraintAction_specs_def example_db_def)
  from specs_deduplicated_sorted [OF h1 h2 h3, of Map.empty]
  obtain result where a:
    "ConstraintAction_specs (example_db None) \<lparr>values = Some [''abc'', ''ab'']\<rparr> Map.empty =
       Inr result"
    and b: "sorted (map (cmp_key (example_db None)) result)"
    and c: "distinct (map (dag_hash (example_db None)) result)"
    by (elim exE conjE)
  from a r have e: "result = [(1, 10), (2, 20), (3, 30)]"
    by simp
  from b have b': "sorted (map (cmp_key (example_db None)) [(1, 10), (2, 20), (3, 30)])"
    unfolding e .
  from c have c': "distinct (map (dag_hash (example_db None)) [(1, 10), (2, 20), (3, 30)])"
    unfolding e .
  show ?thesis
    by (intro conjI h1 h2 h3 q3 q2 r b' c')
qed

text \<open>
  C5. When the action captured the empty token list (which the spec parser turns into no
  query), the deferred callable returns what the database returns for a query without a
  query spec, as it is: neither filtered by a spec nor reordered. The keyword filters are
  those of the caller, with the environment's hashes when an environment is active.
\<close>

theorem empty_constraint_returns_all:
  assumes "values self = Some []" and "parse_specs ext [] = Inr []"
  shows "ConstraintAction_specs ext self kwargs =
     Inr (db_query ext None
            (case active_environment ext of
               Some env \<Rightarrow> kwargs(''hashes'' \<mapsto> HashSet (set (all_hashes ext env)))
             | None \<Rightarrow> kwargs))"
  by (simp add: specs_unfold [OF assms])


theorem empty_constraint_returns_all_witness:
  "values \<lparr>values = Some []\<rparr> = Some [] \<and>
   parse_specs (example_db None) [] = Inr [] \<and>
   ConstraintAction_specs (example_db None) \<lparr>values = Some []\<rparr> Map.empty =
     Inr [(3, 30), (1, 10), (2, 20)]"
proof -
  have h1: "values \<lparr>values = Some []\<rparr> = Some []"
    by simp
  have h2: "parse_specs (example_db None) [] = Inr []"
    by (simp add: example_db_def)
  show ?thesis
    using empty_constraint_returns_all [OF h1 h2, of Map.empty]
    by (simp add: example_db_def)
qed

text \<open>
  C8. Firing the action parses nothing and queries nothing: it takes neither the spec
  parser nor the database, always returns, and only sets \<^verbatim>\<open>self.values\<close>, stores the raw
  tokens under \<^verbatim>\<open>constraint\<close> and the bound method under \<^verbatim>\<open>specs\<close>, leaving every other
  attribute of the namespace as it was. When the tokens are malformed, the parser's
  exception is raised by the later call of the deferred callable.
\<close>

theorem constraint_action_defers:
  "values (fst (ConstraintAction_call self ns vals)) = Some vals \<and>
   snd (ConstraintAction_call self ns vals) ''constraint'' = Some (Tokens vals) \<and>
   snd (ConstraintAction_call self ns vals) ''specs'' = Some SpecsMethod \<and>
   (\<forall>n. n \<noteq> ''constraint'' \<and> n \<noteq> ''specs'' \<longrightarrow>
      snd (ConstraintAction_call self ns vals) n = ns n) \<and>
   (\<forall>e. parse_specs ext vals = Inl e \<longrightarrow>
      ConstraintAction_specs ext (fst (ConstraintAction_call self ns vals)) kwargs =
        Inl (Propagated e))"
  by (simp add: ConstraintAction_call_def ConstraintAction_specs_def)


theorem constraint_action_defers_witness:
  "values (fst (ConstraintAction_call \<lparr>values = None\<rparr> Map.empty [''abc'', []])) =
     Some [''abc'', []] \<and>
   snd (ConstraintAction_call \<lparr>values = None\<rparr> Map.empty [''abc'', []]) ''constraint'' =
     Some (Tokens [''abc'', []]) \<and>
   snd (ConstraintAction_call \<lparr>values = None\<rparr> Map.empty [''abc'', []]) ''specs'' =
     Some SpecsMethod \<and>
   snd (ConstraintAction_call \<lparr>values = None\<rparr> Map.empty [''abc'', []]) ''jobs'' = None \<and>
   parse_specs (example_db None) [''abc'', []] = Inl ''SpecParseError'' \<and>
   ConstraintAction_specs (example_db None)
       (fst (ConstraintAction_call \<lparr>values = None\<rparr> Map.empty [''abc'', []])) Map.empty =
     Inl (Propagated ''SpecParseError'')"
proof -
  have h: "parse_specs (example_db None) [''abc'', []] = Inl ''SpecParseError''"
    by (simp add: example_db_def)
  show ?thesis
    using h constraint_action_defers [of "\<lparr>values = None\<rparr>" Map.empty "[''abc'', []]"
        "example_db None" Map.empty]
    by simp
qed

subsection \<open>SetParallelJobs\<close>

text \<open>
  C3. A job count \<open>j \<ge> 1\<close> is accepted: the call raises nothing, writes
  \<open>min j cpu_count\<close> to \<^verbatim>\<open>config:build_jobs\<close> in the scope \<^verbatim>\<open>command_line\<close> and stores it
  under \<^verbatim>\<open>jobs\<close> in the namespace. A job count \<open>j < 1\<close> raises the \<open>ValueError\<close> whose
  message quotes the option string and the value, and the namespace stays as it was.
\<close>

theorem job_count_validate_clamp:
  \<open>(1 \<le> j \<longrightarrow>
      SetParallelJobs_call sys config ns j opt =
        (None,
         config_set sys config ''config:build_jobs'' (min j (cpu_count sys)) ''command_line'',
         ns(''jobs'' \<mapsto> IntVal (min j (cpu_count sys))))) \<and>
   (j < 1 \<longrightarrow>
      SetParallelJobs_call sys config ns j opt =
        (Some (ValueError (''invalid value for argument "'' @ opt @
                 ''" [expected a positive integer, got "'' @ str_int j @ ''"]'')),
         config, ns))\<close>
  by (simp add: SetParallelJobs_call_def Let_def)


theorem job_count_validate_clamp_witness:
  \<open>(1 :: int) \<le> 999 \<and>
   SetParallelJobs_call sys8 [] Map.empty 999 ''--jobs'' =
     (None :: unit error option, [(''command_line'', ''config:build_jobs'', 8)],
      [''jobs'' \<mapsto> IntVal 8]) \<and>
   (- 12 :: int) < 1 \<and>
   SetParallelJobs_call sys8 [] Map.empty (- 12) ''-j'' =
     (Some (ValueError ''invalid value for argument "-j" [expected a positive integer, got "-12"]'')
        :: unit error option,
      [], Map.empty)\<close>
  using job_count_validate_clamp [of 999 sys8 "[]" Map.empty "''--jobs''"]
    job_count_validate_clamp [of "- 12" sys8 "[]" Map.empty "''-j''"]
  by (simp add: sys8_def str_int_def str_nat.simps)

text \<open>
  C9. The configuration is written only after the validation: a job count \<open>j < 1\<close>
  raises and leaves the configuration as it was, whatever the configuration writer does;
  and a call that changed the configuration had \<open>j \<ge> 1\<close> and raised nothing.
\<close>

theorem job_count_write_after_validation:
  "(j < 1 \<longrightarrow>
      fst (SetParallelJobs_call sys config ns j opt) \<noteq> None \<and>
      fst (snd (SetParallelJobs_call sys config ns j opt)) = config) \<and>
   (fst (snd (SetParallelJobs_call sys config ns j opt)) \<noteq> config \<longrightarrow>
      1 \<le> j \<and> fst (SetParallelJobs_call sys config ns j opt) = None)"
  by (simp add: SetParallelJobs_call_def Let_def)


theorem job_count_write_after_validation_witness:
  \<open>(0 :: int) < 1 \<and>
   fst (SetParallelJobs_call sys8 [(''site'', ''config:build_jobs'', 4)] Map.empty 0 ''-j'') =
     (Some (ValueError ''invalid value for argument "-j" [expected a positive integer, got "0"]'')
        :: unit error option) \<and>
   fst (snd (SetParallelJobs_call sys8 [(''site'', ''config:build_jobs'', 4)] Map.empty 0 ''-j''
        :: unit error option \<times> _)) =
     [(''site'', ''config:build_jobs'', 4)] \<and>
   fst (snd (SetParallelJobs_call sys8 [(''site'', ''config:build_jobs'', 4)] Map.empty 2 ''-j''
        :: unit error option \<times> _)) =
     [(''command_line'', ''config:build_jobs'', 2), (''site'', ''config:build_jobs'', 4)] \<and>
   fst (SetParallelJobs_call sys8 [(''site'', ''config:build_jobs'', 4)] Map.empty 2 ''-j'') =
     (None :: unit error option)\<close>
proof -
  have a: "(0 :: int) < 1"
    by simp
  have b: "fst (snd (SetParallelJobs_call sys8 [(''site'', ''config:build_jobs'', 4)] Map.empty 2 ''-j''
        :: unit error option \<times> _)) \<noteq> [(''site'', ''config:build_jobs'', 4)]"
    by (simp add: SetParallelJobs_call_def sys8_def)
  show ?thesis
    using a b
      job_count_write_after_validation
        [of 0 sys8 "[(''site'', ''config:build_jobs'', 4)]" Map.empty "''-j''"]
      job_count_write_after_validation
        [of 2 sys8 "[(''site'', ''config:build_jobs'', 4)]" Map.empty "''-j''"]
    by (simp add: SetParallelJobs_call_def sys8_def str_int_def str_nat.simps)
qed

text \<open>
  C7. The default is \<open>min\<close> of the configured \<^verbatim>\<open>config:build_jobs\<close> (read with the
  fallback 16) and the CPU count, computed from the configuration and the CPU count of
  the moment of the access: it never exceeds the CPU count, does not depend on the
  action object (there is nothing cached in it), the setter leaves the object and the
  default as they were, and with the same configured value a smaller CPU count gives a
  default that is not larger.
\<close>

theorem job_default_computed:
  "SetParallelJobs_default sys config self =
     min (config_get sys config ''config:build_jobs'' 16) (cpu_count sys) \<and>
   SetParallelJobs_default sys config self \<le> cpu_count sys \<and>
   SetParallelJobs_default sys config self' = SetParallelJobs_default sys config self \<and>
   SetParallelJobs_default_setter self v = self \<and>
   SetParallelJobs_default sys config (SetParallelJobs_default_setter self v) =
     SetParallelJobs_default sys config self \<and>
   (cpu_count sys' \<le> cpu_count sys \<and>
    config_get sys' config' ''config:build_jobs'' 16 =
      config_get sys config ''config:build_jobs'' 16 \<longrightarrow>
    SetParallelJobs_default sys' config' self \<le> SetParallelJobs_default sys config self)"
  by (auto simp: SetParallelJobs_default_def SetParallelJobs_default_setter_def min_def)


theorem job_default_computed_witness:
  "SetParallelJobs_default sys8 [] () = 8 \<and>
   SetParallelJobs_default sys8 [(''site'', ''config:build_jobs'', 4)] () = 4 \<and>
   SetParallelJobs_default_setter () 64 = () \<and>
   SetParallelJobs_default sys8 [] (SetParallelJobs_default_setter () 64) = 8 \<and>
   cpu_count (sys8\<lparr>cpu_count := 2\<rparr>) \<le> cpu_count sys8 \<and>
   SetParallelJobs_default (sys8\<lparr>cpu_count := 2\<rparr>) [] () = 2"
  using job_default_computed [of sys8 "[]" "()" "()" 64 "sys8\<lparr>cpu_count := 2\<rparr>" "[]"]
    job_default_computed [of sys8 "[(''site'', ''config:build_jobs'', 4)]" "()" "()" 64 sys8 "[]"]
  by (simp add: sys8_def SetParallelJobs_default_def SetParallelJobs_default_setter_def)

subsection \<open>DeptypeAction\<close>

text \<open>
  \<open>split_str\<close> cuts a string at every separator: joining the tokens with the separator
  gives the string back, no token holds a separator, and the tokens are the only such
  list. \<open>strip\<close> removes a prefix and a suffix of whitespace and leaves no whitespace at
  either end.
\<close>

lemma split_str_not_Nil: "split_str sep s \<noteq> []"
  by (induction s) (auto split: list.splits)

lemma join_Cons: "ts \<noteq> [] \<Longrightarrow> join sep (t # ts) = t @ sep @ join sep ts"
  by (cases ts) simp_all

lemma join_split_str: "join [sep] (split_str sep s) = s"
proof (induction s)
  case Nil
  then show ?case by simp
next
  case (Cons c cs)
  then show ?case
    using split_str_not_Nil [of sep cs]
    by (cases "split_str sep cs"; cases "tl (split_str sep cs)") (auto simp: join_Cons)
qed

lemma split_str_no_sep: "t \<in> set (split_str sep s) \<Longrightarrow> sep \<notin> set t"
  by (induction s arbitrary: t) (auto split: if_splits list.splits)

lemma split_str_token: "sep \<notin> set t \<Longrightarrow> split_str sep (t @ sep # s) = t # split_str sep s"
  by (induction t) auto

lemma split_str_last: "sep \<notin> set t \<Longrightarrow> split_str sep t = [t]"
  by (induction t) auto

lemma split_str_join:
  "ts \<noteq> [] \<Longrightarrow> \<forall>t \<in> set ts. sep \<notin> set t \<Longrightarrow> split_str sep (join [sep] ts) = ts"
proof (induction ts)
  case Nil
  then show ?case by simp
next
  case (Cons x xs)
  show ?case
  proof (cases xs)
    case Nil
    with Cons.prems show ?thesis by (simp add: split_str_last)
  next
    case (Cons y ys)
    with Cons.IH Cons.prems have "split_str sep (join [sep] xs) = xs" by simp
    with Cons Cons.prems show ?thesis by (simp add: split_str_token)
  qed
qed

lemma strip_decompose:
  "\<exists>pre post. s = pre @ strip s @ post \<and> (\<forall>c \<in> set pre. isspace c) \<and> (\<forall>c \<in> set post. isspace c)"
proof -
  let ?a = "takeWhile isspace s" and ?m = "dropWhile isspace s"
  let ?b = "takeWhile isspace (rev ?m)"
  have "rev ?m = ?b @ dropWhile isspace (rev ?m)" by simp
  then have "?m = rev (dropWhile isspace (rev ?m)) @ rev ?b"
    by (metis rev_append rev_rev_ident)
  then have "s = ?a @ strip s @ rev ?b"
    by (metis strip_def takeWhile_dropWhile_id)
  moreover have "\<forall>c \<in> set ?a. isspace c" by (auto dest: set_takeWhileD)
  moreover have "\<forall>c \<in> set (rev ?b). isspace c" by (auto dest: set_takeWhileD)
  ultimately show ?thesis by blast
qed

lemma strip_ends:
  assumes "strip s \<noteq> []"
  shows "\<not> isspace (hd (strip s))" and "\<not> isspace (last (strip s))"
proof -
  let ?m = "dropWhile isspace s"
  have m: "?m \<noteq> []" using assms by (auto simp: strip_def simp del: dropWhile_eq_Nil_conv)
  have d: "dropWhile isspace (rev ?m) \<noteq> []" using assms by (simp add: strip_def)
  then have "\<not> isspace (hd (dropWhile isspace (rev ?m)))" by (rule hd_dropWhile)
  then show "\<not> isspace (last (strip s))"
    using d by (simp add: strip_def last_rev)
  have "\<not> isspace (hd ?m)" using m by (rule hd_dropWhile)
  moreover have "hd (strip s) = hd ?m"
  proof -
    obtain post where "?m = strip s @ post"
      by (metis strip_def append_take_drop_id rev_append rev_rev_ident takeWhile_dropWhile_id)
    with assms show ?thesis by (metis hd_append2)
  qed
  ultimately show "\<not> isspace (hd (strip s))" by simp
qed


text \<open>
  C6. Without a value (\<^verbatim>\<open>None\<close> or the empty string) the destination is set to
  \<^verbatim>\<open>dep.all_deptypes\<close>, whatever the canonicalizer would do. With a value, the value is
  cut at the commas and every token is stripped of surrounding whitespace; when the
  tokens are exactly \<^verbatim>\<open>('all',)\<close> the canonicalizer receives the string \<^verbatim>\<open>'all'\<close>, which
  is not the tuple of all types, otherwise it receives the tuple of tokens; its result is
  stored in the destination, and its exception propagates with the namespace unchanged.
\<close>

theorem deptype_action_canonicalizes:
  "(vals = None \<or> vals = Some [] \<longrightarrow>
      DeptypeAction_call dep dest ns vals = (None, ns(dest \<mapsto> DeptypeVal (all_deptypes dep)))) \<and>
   (\<forall>v. vals = Some v \<and> v \<noteq> [] \<longrightarrow>
      join '','' (split_str CHR '','' v) = v \<and>
      (\<forall>t \<in> set (split_str CHR '','' v). CHR '','' \<notin> set t \<and>
         (strip t \<noteq> [] \<longrightarrow> \<not> isspace (hd (strip t)) \<and> \<not> isspace (last (strip t))) \<and>
         (\<exists>pre post. t = pre @ strip t @ post \<and>
            (\<forall>c \<in> set pre. isspace c) \<and> (\<forall>c \<in> set post. isspace c))) \<and>
      (map strip (split_str CHR '','' v) = [''all''] \<longrightarrow>
         StrArg ''all'' \<noteq> TupleArg (all_deptypes dep) \<and>
         (\<forall>e. canonical_deptype dep (StrArg ''all'') = Inl e \<longrightarrow>
            DeptypeAction_call dep dest ns vals = (Some (Propagated e), ns)) \<and>
         (\<forall>d. canonical_deptype dep (StrArg ''all'') = Inr d \<longrightarrow>
            DeptypeAction_call dep dest ns vals = (None, ns(dest \<mapsto> DeptypeVal d)))) \<and>
      (map strip (split_str CHR '','' v) \<noteq> [''all''] \<longrightarrow>
         (\<forall>e. canonical_deptype dep (TupleArg (map strip (split_str CHR '','' v))) = Inl e \<longrightarrow>
            DeptypeAction_call dep dest ns vals = (Some (Propagated e), ns)) \<and>
         (\<forall>d. canonical_deptype dep (TupleArg (map strip (split_str CHR '','' v))) = Inr d \<longrightarrow>
            DeptypeAction_call dep dest ns vals = (None, ns(dest \<mapsto> DeptypeVal d)))))"
proof (intro conjI allI impI ballI)
  fix v t
  assume "t \<in> set (split_str CHR '','' v)"
  then show "CHR '','' \<notin> set t" by (rule split_str_no_sep)
next
  fix v
  show "join '','' (split_str CHR '','' v) = v" by (rule join_split_str)
next
  fix t assume "strip t \<noteq> []"
  then show "\<not> isspace (hd (strip t))" and "\<not> isspace (last (strip t))"
    by (rule strip_ends)+
next
  fix t
  show "\<exists>pre post. t = pre @ strip t @ post \<and>
            (\<forall>c \<in> set pre. isspace c) \<and> (\<forall>c \<in> set post. isspace c)"
    by (rule strip_decompose)
qed (auto simp: DeptypeAction_call_def Let_def)


theorem deptype_action_canonicalizes_witness:
  "DeptypeAction_call (dep_vocabulary\<lparr>canonical_deptype := (\<lambda>a. Inl ''unused'')\<rparr>)
       ''deptype'' Map.empty None =
     (None, [''deptype'' \<mapsto> DeptypeVal [''build'', ''link'', ''run'', ''test'']]) \<and>
   map strip (split_str CHR '','' '' run, build'') = [''run'', ''build''] \<and>
   DeptypeAction_call dep_vocabulary ''deptype'' Map.empty (Some '' run, build'') =
     (None, [''deptype'' \<mapsto> DeptypeVal [''build'', ''run'']]) \<and>
   map strip (split_str CHR '','' '' all '') = [''all''] \<and>
   DeptypeAction_call dep_vocabulary ''deptype'' Map.empty (Some '' all '') =
     (None, [''deptype'' \<mapsto> DeptypeVal [''build'', ''link'', ''run'', ''test'']]) \<and>
   DeptypeAction_call dep_vocabulary ''deptype'' Map.empty (Some ''build,all'') =
     (Some (Propagated ''all''), Map.empty)"
  using deptype_action_canonicalizes
      [of None "dep_vocabulary\<lparr>canonical_deptype := (\<lambda>a. Inl ''unused'')\<rparr>" "''deptype''" Map.empty]
    deptype_action_canonicalizes [of "Some '' run, build''" dep_vocabulary "''deptype''" Map.empty]
    deptype_action_canonicalizes [of "Some '' all ''" dep_vocabulary "''deptype''" Map.empty]
    deptype_action_canonicalizes [of "Some ''build,all''" dep_vocabulary "''deptype''" Map.empty]
  by (simp add: DeptypeAction_call_def dep_vocabulary_def strip_def isspace_def)

end
